theory Spec2Isabelle
  imports Complex_Main "HOL-Library.Word" "HOL-Library.Sublist"
begin

section \<open>Values shared by the two components\<close>

subsection \<open>Strings\<close>

text \<open>
  A JavaScript string is a sequence of 16-bit code units. \<open>utf16\<close> writes the ASCII
  text of the source's literals from an Isabelle string literal; the few other
  characters are given by their code units.
\<close>

type_synonym code_unit = "16 word"
type_synonym jsstring = "code_unit list"

definition utf16 :: "string \<Rightarrow> jsstring" where
  "utf16 s = map (\<lambda>c. word_of_nat (of_char c)) s"

text \<open>
  \<open>String.prototype.trim\<close> removes leading and trailing WhiteSpace and LineTerminator
  code points (ECMAScript 22.1.3.32): TAB, VT, FF, SP, NBSP, ZWNBSP, the Unicode
  space separators, and LF, CR, LS, PS. All of them are single code units.
\<close>

definition is_white_space :: "code_unit \<Rightarrow> bool" where
  "is_white_space c \<longleftrightarrow>
     c = 0x0009 \<or> c = 0x000A \<or> c = 0x000B \<or> c = 0x000C \<or> c = 0x000D \<or> c = 0x0020 \<or>
     c = 0x00A0 \<or> c = 0x1680 \<or> (0x2000 \<le> c \<and> c \<le> 0x200A) \<or> c = 0x2028 \<or>
     c = 0x2029 \<or> c = 0x202F \<or> c = 0x205F \<or> c = 0x3000 \<or> c = 0xFEFF"

definition trim :: "jsstring \<Rightarrow> jsstring" where
  "trim s = rev (dropWhile is_white_space (rev (dropWhile is_white_space s)))"

subsection \<open>Values read from a JSON body\<close>

text \<open>
  The result of \<open>response.json()\<close> is an arbitrary JSON value; an object is the list
  of its own properties. Reading a property gives \<open>None\<close> for \<open>undefined\<close>.
\<close>

datatype jsvalue =
    JNull
  | JBool bool
  | JNum real
  | JStr jsstring
  | JArr "jsvalue list"
  | JObj "(jsstring \<times> jsvalue) list"

text \<open>A thrown \<open>Error\<close> object, with its \<open>message\<close>.\<close>

datatype js_error = JsError jsstring

fun error_message :: "js_error \<Rightarrow> jsstring" where
  "error_message (JsError m) = m"

text \<open>
  Property read \<open>data.k\<close> for the three names the chat client reads (none of them is a
  property of a built-in prototype): on \<open>null\<close> it throws a TypeError (the message is
  the engine's), on an object it is the own property or \<open>undefined\<close>, on every other
  value it is \<open>undefined\<close>.
\<close>

definition null_read_message :: jsstring where
  "null_read_message = utf16 ''Cannot read properties of null''"

fun get_prop :: "jsvalue \<Rightarrow> jsstring \<Rightarrow> js_error + jsvalue option" where
  "get_prop JNull k = Inl (JsError null_read_message)"
| "get_prop (JObj kvs) k = Inr (map_of kvs k)"
| "get_prop v k = Inr None"

text \<open>
  The nullish coalescing operator \<open>a ?? b\<close>: \<open>b\<close> when \<open>a\<close> is \<open>undefined\<close> or
  \<open>null\<close>, and \<open>a\<close> otherwise.
\<close>

fun coalesce :: "jsvalue option \<Rightarrow> js_error + jsvalue \<Rightarrow> js_error + jsvalue" where
  "coalesce None rhs = rhs"
| "coalesce (Some JNull) rhs = rhs"
| "coalesce (Some v) rhs = Inr v"

subsection \<open>The outcome of a fetch\<close>

text \<open>
  A fetch either rejects (network failure, with the engine's error message) or resolves
  with a response: its status and what \<open>response.json()\<close> gives for its body (the
  parsed value, or the rejection when the body is not JSON).
\<close>

datatype fetch_result = NetworkFailure jsstring | Response nat "js_error + jsvalue"

definition ok :: "nat \<Rightarrow> bool" where
  "ok status \<longleftrightarrow> 200 \<le> status \<and> status \<le> 299"

section \<open>The chat component\<close>

subsection \<open>Types\<close>

text \<open>The string literal types \<open>"file_only" | "rag"\<close> and \<open>"user" | "assistant" | "error"\<close>.\<close>

datatype Mode = File_only | Rag

fun mode_string :: "Mode \<Rightarrow> jsstring" where
  "mode_string File_only = utf16 ''file_only''"
| "mode_string Rag = utf16 ''rag''"

datatype role = User | Assistant | Error

text \<open>
  \<open>content\<close> is declared a string; an assistant message holds whatever value the
  response body gave, so it is a \<open>jsvalue\<close> here. \<open>timestamp\<close> is the time in ms.
\<close>

record message =
  id_msg :: jsstring
  role :: role
  content :: jsvalue
  mode_msg :: "Mode option"
  timestamp :: nat

subsection \<open>The request\<close>

definition CHAT_API_URL :: jsstring where
  "CHAT_API_URL = utf16 ''https://rag-backend-1-x6fr.onrender.com/api/chat''"

definition fallback :: jsstring where
  "fallback = utf16 ''Something went wrong. Please try again.''"

record request =
  url :: jsstring
  method_req :: jsstring
  headers :: "(jsstring \<times> jsstring) list"
  body :: jsvalue

text \<open>The fetch that \<open>sendMessage(question)\<close> makes; \<open>body\<close> is the value serialised.\<close>

definition sendMessage_fetch :: "jsstring \<Rightarrow> request" where
  "sendMessage_fetch question =
     \<lparr>url = CHAT_API_URL, method_req = utf16 ''POST'',
      headers = [(utf16 ''Content-Type'', utf16 ''application/json'')],
      body = JObj [(utf16 ''question'', JStr question), (utf16 ''mode'', JStr (utf16 ''rag''))]\<rparr>"

text \<open>
  The body of the \<open>try\<close> block of \<open>sendMessage\<close>, from the result of the fetch on:
  \<open>Inl\<close> is what it throws.
\<close>

definition sendMessage_try :: "fetch_result \<Rightarrow> js_error + jsvalue" where
  "sendMessage_try res =
     (case res of
        NetworkFailure m \<Rightarrow> Inl (JsError m)
      | Response status json \<Rightarrow>
          if \<not> ok status then Inl (JsError fallback)
          else
            (case json of
               Inl e \<Rightarrow> Inl e
             | Inr data \<Rightarrow>
                 (case get_prop data (utf16 ''answer'') of
                    Inl e \<Rightarrow> Inl e
                  | Inr a \<Rightarrow>
                      coalesce a
                        (case get_prop data (utf16 ''response'') of
                           Inl e \<Rightarrow> Inl e
                         | Inr r \<Rightarrow>
                             coalesce r
                               (case get_prop data (utf16 ''message'') of
                                  Inl e \<Rightarrow> Inl e
                                | Inr m \<Rightarrow> coalesce m (Inr (JStr fallback)))))))"

text \<open>
  What the promise of \<open>sendMessage\<close> settles with: \<open>Inr\<close> when it resolves, \<open>Inl\<close> when
  it rejects. The \<open>catch\<close> block returns the fallback string.
\<close>

definition sendMessage :: "jsstring \<Rightarrow> fetch_result \<Rightarrow> js_error + jsvalue" where
  "sendMessage question res =
     (case sendMessage_try res of
        Inr v \<Rightarrow> Inr v
      | Inl err \<Rightarrow> Inr (JStr fallback))"

subsection \<open>The component state and its handlers\<close>

text \<open>
  The four state variables of \<open>ChatBot\<close>, then what lives outside them: the requests
  handed to \<open>fetch\<close> so far, and the sends awaiting their response, each with the
  \<open>prompt\<close> and the \<open>mode\<close> that the continuation of \<open>handleSend\<close> closed over.
\<close>

record chat_state =
  messages :: "message list"
  input :: jsstring
  mode :: Mode
  loading :: bool
  sent :: "request list"
  outstanding :: "(jsstring \<times> Mode) list"

definition welcome_text :: "jsstring \<Rightarrow> jsstring" where
  "welcome_text fileName =
     utf16 ''Document loaded. I'' @ [0x27] @ utf16 ''m ready to answer questions about **'' @
     fileName @ utf16 ''**.'' @ [0x0A, 0x0A] @
     utf16 ''Use the toggle to switch between:'' @ [0x0A, 0x2022] @
     utf16 '' **File Only** '' @ [0x2014] @
     utf16 '' strict answers from the document'' @ [0x0A, 0x2022] @
     utf16 '' **AI + File** '' @ [0x2014] @ utf16 '' enhanced answers using AI reasoning''"

text \<open>The state at mount; \<open>i\<close> and \<open>now\<close> are what \<open>generateId()\<close> and \<open>new Date()\<close> gave.\<close>

definition ChatBot :: "jsstring \<Rightarrow> jsstring \<Rightarrow> nat \<Rightarrow> chat_state" where
  "ChatBot fileName i now =
     \<lparr>messages =
        [\<lparr>id_msg = i, role = Assistant, content = JStr (welcome_text fileName),
          mode_msg = None, timestamp = now\<rparr>],
      input = [], mode = File_only, loading = False, sent = [], outstanding = []\<rparr>"

text \<open>\<open>handleSend\<close> up to its \<open>await\<close>.\<close>

definition handleSend :: "jsstring \<Rightarrow> nat \<Rightarrow> chat_state \<Rightarrow> chat_state" where
  "handleSend i now s =
     (let prompt = trim (input s) in
      if prompt = [] \<or> loading s then s
      else
        let userMsg = \<lparr>id_msg = i, role = User, content = JStr prompt,
                         mode_msg = None, timestamp = now\<rparr>
        in s\<lparr>messages := messages s @ [userMsg], input := [], loading := True,
             sent := sent s @ [sendMessage_fetch prompt],
             outstanding := outstanding s @ [(prompt, mode s)]\<rparr>)"

text \<open>
  \<open>handleSend\<close> from its \<open>await\<close> on: \<open>settled\<close> is what the promise of \<open>sendMessage\<close>
  settled with, \<open>mode0\<close> the \<open>mode\<close> of the closure.
\<close>

definition handleSend_resume ::
    "jsstring \<Rightarrow> nat \<Rightarrow> Mode \<Rightarrow> js_error + jsvalue \<Rightarrow> chat_state \<Rightarrow> chat_state" where
  "handleSend_resume i now mode0 settled s =
     (let s1 =
        (case settled of
           Inr answer \<Rightarrow>
             s\<lparr>messages := messages s @
                [\<lparr>id_msg = i, role = Assistant, content = answer,
                  mode_msg = Some mode0, timestamp = now\<rparr>]\<rparr>
         | Inl err \<Rightarrow>
             s\<lparr>messages := messages s @
                [\<lparr>id_msg = i, role = Error, content = JStr (error_message err),
                  mode_msg = None, timestamp = now\<rparr>]\<rparr>)
      in s1\<lparr>loading := False\<rparr>)"

text \<open>The response to the oldest outstanding send arrives, and its \<open>handleSend\<close> resumes.\<close>

definition handleSend_settle :: "jsstring \<Rightarrow> nat \<Rightarrow> fetch_result \<Rightarrow> chat_state \<Rightarrow> chat_state" where
  "handleSend_settle i now res s =
     (case outstanding s of
        [] \<Rightarrow> s
      | (prompt, mode0) # rest \<Rightarrow>
          handleSend_resume i now mode0 (sendMessage prompt res) (s\<lparr>outstanding := rest\<rparr>))"

text \<open>\<open>handleInputChange\<close>, and what the markup disables.\<close>

definition handleInputChange :: "jsstring \<Rightarrow> chat_state \<Rightarrow> chat_state" where
  "handleInputChange v s = s\<lparr>input := v\<rparr>"

definition textarea_disabled :: "chat_state \<Rightarrow> bool" where
  "textarea_disabled s \<longleftrightarrow> loading s"

definition send_disabled :: "chat_state \<Rightarrow> bool" where
  "send_disabled s \<longleftrightarrow> trim (input s) = [] \<or> loading s"

text \<open>
  What React makes of a value given as a child, as \<open>{msg.content}\<close> is: a string is
  shown as text, a number as its decimal text (left as the number here), \<open>true\<close>,
  \<open>false\<close> and \<open>null\<close> show nothing, an array shows its elements in turn, and a plain
  object is not a valid child: rendering throws.
\<close>

datatype react_node = Text jsstring | Number_text real | Empty | Fragment "react_node list"

datatype rendered = Shown react_node | Render_throws

fun render_child :: "jsvalue \<Rightarrow> rendered"
  and render_children :: "jsvalue list \<Rightarrow> react_node list option" where
  "render_child (JStr s) = Shown (Text s)"
| "render_child (JNum n) = Shown (Number_text n)"
| "render_child (JBool b) = Shown Empty"
| "render_child JNull = Shown Empty"
| "render_child (JObj kvs) = Render_throws"
| "render_child (JArr vs) =
     (case render_children vs of None \<Rightarrow> Render_throws | Some ns \<Rightarrow> Shown (Fragment ns))"
| "render_children [] = Some []"
| "render_children (v # vs) =
     (case render_child v of
        Render_throws \<Rightarrow> None
      | Shown n \<Rightarrow> (case render_children vs of None \<Rightarrow> None | Some ns \<Rightarrow> Some (n # ns)))"

text \<open>The content of the bubble that \<open>MessageBubble\<close> renders for a message: \<open>{msg.content}\<close>.\<close>

definition MessageBubble :: "message \<Rightarrow> rendered" where
  "MessageBubble msg = render_child (content msg)"

subsection \<open>The component as a transition system\<close>

text \<open>
  The events of a chat session: typing into the textarea (which is disabled while
  \<open>loading\<close>), a send (the button or the Enter key, both call \<open>handleSend\<close>), and the
  arrival of a response. The identifiers and times are the environment's.
\<close>

datatype chat_event =
    Input_change jsstring
  | Send jsstring nat
  | Settle jsstring nat fetch_result

fun chat_step :: "chat_event \<Rightarrow> chat_state \<Rightarrow> chat_state" where
  "chat_step (Input_change v) s = (if textarea_disabled s then s else handleInputChange v s)"
| "chat_step (Send i now) s = handleSend i now s"
| "chat_step (Settle i now res) s = handleSend_settle i now res s"

fun chat_run :: "chat_event list \<Rightarrow> chat_state \<Rightarrow> chat_state" where
  "chat_run [] s = s"
| "chat_run (e # es) s = chat_run es (chat_step e s)"

section \<open>The upload component\<close>

subsection \<open>State\<close>

record File =
  name :: jsstring
  size_file :: nat

text \<open>
  The six state variables of \<open>FileUpload\<close>, then what lives outside them: the timers.
  \<open>setInterval\<close> returns a fresh identifier; \<open>intervals\<close> are the running ones;
  \<open>fetches\<close> are the uploads awaiting their response, each with the \<open>file\<close> and the
  \<open>interval\<close> that \<open>handleUpload\<close> closed over; \<open>timeouts\<close> are the scheduled
  callbacks, each with its delay in ms and the \<open>file\<close> it closed over.
\<close>

record upload_state =
  "file" :: "File option"
  dragOver :: bool
  uploading :: bool
  progress :: real
  uploaded :: bool
  uploadedFileName :: jsstring
  next_timer :: nat
  intervals :: "nat list"
  fetches :: "(File \<times> nat) list"
  timeouts :: "(nat \<times> File) list"

definition FileUpload :: upload_state where
  "FileUpload =
     \<lparr>file = None, dragOver = False, uploading = False, progress = 0, uploaded = False,
      uploadedFileName = [], next_timer = 0, intervals = [], fetches = [], timeouts = []\<rparr>"

subsection \<open>Handlers\<close>

text \<open>\<open>files\<close> is \<open>e.target.files[0]\<close>, when there is one.\<close>

definition handleFileChange :: "File option \<Rightarrow> upload_state \<Rightarrow> upload_state" where
  "handleFileChange files s =
     (case files of None \<Rightarrow> s | Some f \<Rightarrow> s\<lparr>file := Some f, uploaded := False\<rparr>)"

definition handleDragOver :: "upload_state \<Rightarrow> upload_state" where
  "handleDragOver s = s\<lparr>dragOver := True\<rparr>"

definition handleDragLeave :: "upload_state \<Rightarrow> upload_state" where
  "handleDragLeave s = s\<lparr>dragOver := False\<rparr>"

definition handleDrop :: "File option \<Rightarrow> upload_state \<Rightarrow> upload_state" where
  "handleDrop files s =
     (let s1 = s\<lparr>dragOver := False\<rparr>
      in case files of None \<Rightarrow> s1 | Some f \<Rightarrow> s1\<lparr>file := Some f, uploaded := False\<rparr>)"

definition clearInterval :: "nat \<Rightarrow> upload_state \<Rightarrow> upload_state" where
  "clearInterval k s = s\<lparr>intervals := removeAll k (intervals s)\<rparr>"

text \<open>
  The callback of the interval \<open>k\<close>, every 200 ms; \<open>r\<close> is what \<open>Math.random()\<close> gave.
  The progress is a real number here. The source computes in IEEE doubles, where the
  product and the sum are rounded; the two agree wherever both results are exact in
  binary, and can differ at the comparison with 90 otherwise.
\<close>

definition interval_tick :: "nat \<Rightarrow> real \<Rightarrow> upload_state \<Rightarrow> upload_state" where
  "interval_tick k r s =
     (if progress s \<ge> 90 then (clearInterval k s)\<lparr>progress := 90\<rparr>
      else s\<lparr>progress := progress s + r * 15\<rparr>)"

text \<open>The callback of the timeout that closed over \<open>f\<close>.\<close>

definition timeout_callback :: "File \<Rightarrow> upload_state \<Rightarrow> upload_state" where
  "timeout_callback f s = s\<lparr>uploadedFileName := name f, uploaded := True, uploading := False\<rparr>"

definition setTimeout :: "File \<Rightarrow> nat \<Rightarrow> upload_state \<Rightarrow> upload_state" where
  "setTimeout f delay s = s\<lparr>timeouts := timeouts s @ [(delay, f)]\<rparr>"

text \<open>\<open>handleUpload\<close> up to its \<open>await\<close>.\<close>

definition handleUpload :: "upload_state \<Rightarrow> upload_state" where
  "handleUpload s =
     (case file s of
        None \<Rightarrow> s
      | Some f \<Rightarrow>
          let interval = next_timer s
          in s\<lparr>uploading := True, progress := 0, next_timer := Suc interval,
               intervals := intervals s @ [interval],
               fetches := fetches s @ [(f, interval)]\<rparr>)"

text \<open>
  The \<open>try\<close> block from the \<open>await\<close> on: the state it leaves, and what it threw, if
  anything.
\<close>

definition handleUpload_try ::
    "File \<Rightarrow> nat \<Rightarrow> fetch_result \<Rightarrow> upload_state \<Rightarrow> upload_state \<times> js_error option" where
  "handleUpload_try f interval res s =
     (case res of
        NetworkFailure m \<Rightarrow> (s, Some (JsError m))
      | Response status json \<Rightarrow>
          let s1 = (clearInterval interval s)\<lparr>progress := 100\<rparr>
          in if \<not> ok status then (s1, Some (JsError (utf16 ''Upload failed'')))
             else (setTimeout f 600 s1, None))"

definition handleUpload_catch :: "File \<Rightarrow> nat \<Rightarrow> upload_state \<Rightarrow> upload_state" where
  "handleUpload_catch f interval s =
     setTimeout f 600 ((clearInterval interval s)\<lparr>progress := 100\<rparr>)"

definition handleUpload_resume ::
    "File \<Rightarrow> nat \<Rightarrow> fetch_result \<Rightarrow> upload_state \<Rightarrow> upload_state" where
  "handleUpload_resume f interval res s =
     (case handleUpload_try f interval res s of
        (s1, None) \<Rightarrow> s1
      | (s1, Some error) \<Rightarrow> handleUpload_catch f interval s1)"

text \<open>The response to the oldest upload in flight arrives, and its \<open>handleUpload\<close> resumes.\<close>

definition handleUpload_settle :: "fetch_result \<Rightarrow> upload_state \<Rightarrow> upload_state" where
  "handleUpload_settle res s =
     (case fetches s of
        [] \<Rightarrow> s
      | (f, interval) # rest \<Rightarrow> handleUpload_resume f interval res (s\<lparr>fetches := rest\<rparr>))"

text \<open>The oldest scheduled timeout fires.\<close>

definition timeout_fire :: "upload_state \<Rightarrow> upload_state" where
  "timeout_fire s =
     (case timeouts s of
        [] \<Rightarrow> s
      | (delay, f) # rest \<Rightarrow> timeout_callback f (s\<lparr>timeouts := rest\<rparr>))"

definition handleReset :: "upload_state \<Rightarrow> upload_state" where
  "handleReset s = s\<lparr>file := None, uploaded := False, progress := 0, uploadedFileName := []\<rparr>"

subsection \<open>What is rendered\<close>

text \<open>
  \<open>if (uploaded) return <ChatBot fileName={uploadedFileName} onReset={handleReset} />\<close>,
  the upload card otherwise. On the card the upload button is disabled by
  \<open>!file || uploading\<close> and the reset button is there when \<open>file && !uploading\<close>.
\<close>

datatype screen = Chat_screen jsstring | Upload_screen

definition render :: "upload_state \<Rightarrow> screen" where
  "render s = (if uploaded s then Chat_screen (uploadedFileName s) else Upload_screen)"

definition upload_disabled :: "upload_state \<Rightarrow> bool" where
  "upload_disabled s \<longleftrightarrow> file s = None \<or> uploading s"

definition reset_shown :: "upload_state \<Rightarrow> bool" where
  "reset_shown s \<longleftrightarrow> uploaded s \<or> (file s \<noteq> None \<and> \<not> uploading s)"

subsection \<open>The component as a transition system\<close>

text \<open>
  The events: those of the upload card (possible only while the card is rendered), the
  reset button of either screen, the interval \<open>k\<close> firing with the random number \<open>r\<close> (in
  \<open>[0, 1)\<close>, as \<open>Math.random()\<close> promises), a response arriving, and a timeout firing.
\<close>

datatype upload_event =
    File_change "File option"
  | Drag_over
  | Drag_leave
  | Drop "File option"
  | Click_upload
  | Click_reset
  | Tick nat real
  | Fetch_settle fetch_result
  | Timeout_fire

fun upload_step :: "upload_event \<Rightarrow> upload_state \<Rightarrow> upload_state" where
  "upload_step (File_change files) s = (if uploaded s then s else handleFileChange files s)"
| "upload_step Drag_over s = (if uploaded s then s else handleDragOver s)"
| "upload_step Drag_leave s = (if uploaded s then s else handleDragLeave s)"
| "upload_step (Drop files) s = (if uploaded s then s else handleDrop files s)"
| "upload_step Click_upload s =
     (if uploaded s \<or> upload_disabled s then s else handleUpload s)"
| "upload_step Click_reset s = (if reset_shown s then handleReset s else s)"
| "upload_step (Tick k r) s =
     (if k \<in> set (intervals s) \<and> 0 \<le> r \<and> r < 1 then interval_tick k r s else s)"
| "upload_step (Fetch_settle res) s = handleUpload_settle res s"
| "upload_step Timeout_fire s = timeout_fire s"

fun upload_run :: "upload_event list \<Rightarrow> upload_state \<Rightarrow> upload_state" where
  "upload_run [] s = s"
| "upload_run (e # es) s = upload_run es (upload_step e s)"

section \<open>Notions used to state the properties\<close>

subsection \<open>The answer of a chat response, in the words of the specification\<close>

text \<open>
  The three fields read from a response body, in the order they are read, and the values
  of those that are present in an object.
\<close>

definition answer_fields :: "jsstring list" where
  "answer_fields = [utf16 ''answer'', utf16 ''response'', utf16 ''message'']"

definition present_fields :: "(jsstring \<times> jsvalue) list \<Rightarrow> jsvalue list" where
  "present_fields kvs = List.map_filter (map_of kvs) answer_fields"

text \<open>"The first present field among \<open>answer\<close>, \<open>response\<close>, \<open>message\<close>".\<close>

definition first_present :: "(jsstring \<times> jsvalue) list \<Rightarrow> jsvalue option" where
  "first_present kvs = (case present_fields kvs of [] \<Rightarrow> None | v # _ \<Rightarrow> Some v)"

text \<open>The first of them that is present with a value other than \<open>null\<close>.\<close>

definition first_non_null :: "(jsstring \<times> jsvalue) list \<Rightarrow> jsvalue option" where
  "first_non_null kvs = List.find (\<lambda>v. v \<noteq> JNull) (present_fields kvs)"

text \<open>
  The answer the specification describes, for a way \<open>pick\<close> of choosing the field: the
  chosen field of a 2xx response whose body is an object; the fallback string when no
  field is chosen, the status is not 2xx, or the fetch failed. A body that is no JSON,
  or no object, has none of the fields.
\<close>

definition answer_of ::
    "((jsstring \<times> jsvalue) list \<Rightarrow> jsvalue option) \<Rightarrow> fetch_result \<Rightarrow> jsvalue" where
  "answer_of pick res =
     (case res of
        Response status (Inr (JObj kvs)) \<Rightarrow>
          if ok status then (case pick kvs of Some v \<Rightarrow> v | None \<Rightarrow> JStr fallback)
          else JStr fallback
      | _ \<Rightarrow> JStr fallback)"

subsection \<open>Chat sessions\<close>

fun is_settle :: "chat_event \<Rightarrow> bool" where
  "is_settle (Settle i now res) = True"
| "is_settle e = False"

text \<open>
  What holds of every state of a session: while loading the input is empty, loading
  means that a send is outstanding, and at most one is.
\<close>

definition chat_inv :: "chat_state \<Rightarrow> bool" where
  "chat_inv s \<longleftrightarrow>
     (loading s \<longrightarrow> input s = []) \<and> (loading s \<longleftrightarrow> outstanding s \<noteq> []) \<and>
     length (outstanding s) \<le> 1"

text \<open>No bubble of the transcript has the role \<open>error\<close>.\<close>

definition no_error_bubble :: "chat_state \<Rightarrow> bool" where
  "no_error_bubble s \<longleftrightarrow> (\<forall>m\<in>set (messages s). role m \<noteq> Error)"

text \<open>Every request sent that is not among \<open>old\<close> has \<open>"rag"\<close> as the \<open>mode\<close> of its body.\<close>

definition rag_since :: "request list \<Rightarrow> chat_state \<Rightarrow> bool" where
  "rag_since old s \<longleftrightarrow>
     (\<forall>r\<in>set (sent s). r \<in> set old \<or>
        get_prop (body r) (utf16 ''mode'') = Inr (Some (JStr (utf16 ''rag''))))"

subsection \<open>Upload sessions\<close>

text \<open>
  The events that are not the arrival of a response or the firing of a timeout: what the
  user and the interval do.
\<close>

fun ambient :: "upload_event \<Rightarrow> bool" where
  "ambient (Fetch_settle res) = False"
| "ambient Timeout_fire = False"
| "ambient e = True"

text \<open>
  What holds of every state of an upload session: \<open>uploading\<close> is set exactly while a
  fetch or a timeout is pending, at most one is, every running interval belongs to a
  pending fetch, and the chat screen is never shown during an upload.
\<close>

definition upload_inv :: "upload_state \<Rightarrow> bool" where
  "upload_inv s \<longleftrightarrow>
     (uploading s \<longleftrightarrow> fetches s \<noteq> [] \<or> timeouts s \<noteq> []) \<and>
     length (fetches s) + length (timeouts s) \<le> 1 \<and>
     set (intervals s) \<subseteq> snd ` set (fetches s) \<and>
     (uploaded s \<longrightarrow> \<not> uploading s)"

definition progress_inv :: "upload_state \<Rightarrow> bool" where
  "progress_inv s \<longleftrightarrow> 0 \<le> progress s \<and> progress s < 105"

text \<open>An upload is in flight, with the pending fetches \<open>fs\<close> and timeouts \<open>ts\<close>.\<close>

definition in_flight ::
    "(File \<times> nat) list \<Rightarrow> (nat \<times> File) list \<Rightarrow> upload_state \<Rightarrow> bool" where
  "in_flight fs ts s \<longleftrightarrow>
     uploading s \<and> \<not> uploaded s \<and> fetches s = fs \<and> timeouts s = ts"

section \<open>Properties of the chat component\<close>

subsection \<open>Auxiliary facts\<close>

lemma trim_Nil [simp]: "trim [] = []"
  by (simp add: trim_def)

lemma coalesce_eq:
  "coalesce a rhs = (case a of None \<Rightarrow> rhs | Some v \<Rightarrow> if v = JNull then rhs else Inr v)"
  by (cases "(a, rhs)" rule: coalesce.cases) simp_all

lemma sendMessage_Inr: "\<exists>v. sendMessage q res = Inr v"
  by (simp add: sendMessage_def split: sum.splits)

lemma sendMessage_try_obj:
  "ok st \<Longrightarrow> sendMessage_try (Response st (Inr (JObj kvs))) =
     Inr (case first_non_null kvs of Some v \<Rightarrow> v | None \<Rightarrow> JStr fallback)"
  by (simp add: sendMessage_try_def coalesce_eq first_non_null_def present_fields_def
      answer_fields_def List.map_filter_simps split: option.splits)

lemma sendMessage_answer: "sendMessage q res = Inr (answer_of first_non_null res)"
proof (cases res)
  case (NetworkFailure m)
  then show ?thesis
    by (simp add: sendMessage_def sendMessage_try_def answer_of_def)
next
  case (Response st json)
  show ?thesis
  proof (cases "ok st")
    case False
    with Response show ?thesis
      by (simp add: sendMessage_def sendMessage_try_def answer_of_def
          split: sum.splits jsvalue.splits)
  next
    case True
    show ?thesis
    proof (cases json)
      case (Inl e)
      with Response True show ?thesis
        by (simp add: sendMessage_def sendMessage_try_def answer_of_def)
    next
      case (Inr data)
      show ?thesis
      proof (cases data)
        case (JObj kvs)
        with Response True Inr show ?thesis
          by (simp add: sendMessage_def sendMessage_try_obj answer_of_def)
      qed (use Response True Inr in
          \<open>simp_all add: sendMessage_def sendMessage_try_def answer_of_def\<close>)
    qed
  qed
qed

lemma chat_inv_ChatBot: "chat_inv (ChatBot f i now)"
  by (simp add: chat_inv_def ChatBot_def)

lemma chat_inv_handleSend: "chat_inv s \<Longrightarrow> chat_inv (handleSend i now s)"
  by (auto simp: chat_inv_def handleSend_def Let_def)

lemma chat_inv_handleSend_settle: "chat_inv s \<Longrightarrow> chat_inv (handleSend_settle i now res s)"
  by (auto simp: chat_inv_def handleSend_settle_def handleSend_resume_def Let_def
      split: list.splits sum.splits)

lemma chat_inv_handleInputChange:
  "chat_inv s \<Longrightarrow> \<not> textarea_disabled s \<Longrightarrow> chat_inv (handleInputChange v s)"
  by (simp add: chat_inv_def textarea_disabled_def handleInputChange_def)

lemma chat_inv_step: "chat_inv s \<Longrightarrow> chat_inv (chat_step e s)"
  by (cases e)
    (simp_all add: chat_inv_handleSend chat_inv_handleSend_settle chat_inv_handleInputChange)

lemma chat_inv_run: "chat_inv s \<Longrightarrow> chat_inv (chat_run es s)"
  by (induction es arbitrary: s) (auto simp: chat_inv_step)

lemma handleSend_settle_messages:
  "outstanding s = (p, m) # rest \<Longrightarrow>
   messages (handleSend_settle i now res s) =
     messages s @ [\<lparr>id_msg = i, role = Assistant,
       content = (case sendMessage p res of Inr v \<Rightarrow> v | Inl e \<Rightarrow> JStr (error_message e)),
       mode_msg = Some m, timestamp = now\<rparr>]"
  using sendMessage_Inr [of p res]
  by (auto simp: handleSend_settle_def handleSend_resume_def Let_def)

lemma handleSend_loading: "loading s \<Longrightarrow> handleSend i now s = s"
  by (simp add: handleSend_def)

lemma chat_step_loading: "loading s \<Longrightarrow> \<not> is_settle e \<Longrightarrow> chat_step e s = s"
  by (cases e) (simp_all add: handleSend_loading textarea_disabled_def)

lemma chat_run_loading:
  "loading s \<Longrightarrow> \<forall>e\<in>set mid. \<not> is_settle e \<Longrightarrow> chat_run mid s = s"
  by (induction mid arbitrary: s) (simp_all add: chat_step_loading)

lemma handleSend_proceeds:
  "\<not> loading s \<Longrightarrow> trim (input s) \<noteq> [] \<Longrightarrow>
   handleSend i now s =
     s\<lparr>messages := messages s @
          [\<lparr>id_msg = i, role = User, content = JStr (trim (input s)),
            mode_msg = None, timestamp = now\<rparr>],
        input := [], loading := True,
        sent := sent s @ [sendMessage_fetch (trim (input s))],
        outstanding := outstanding s @ [(trim (input s), mode s)]\<rparr>"
  by (simp add: handleSend_def Let_def)

lemma prefix_handleSend: "prefix (messages s) (messages (handleSend i now s))"
  by (simp add: handleSend_def Let_def)

lemma prefix_handleSend_settle:
  "prefix (messages s) (messages (handleSend_settle i now res s))"
  by (simp add: handleSend_settle_def handleSend_resume_def Let_def
      split: list.splits sum.splits prod.splits)

lemma prefix_chat_step: "prefix (messages s) (messages (chat_step e s))"
  by (cases e) (simp_all add: prefix_handleSend prefix_handleSend_settle handleInputChange_def)

lemma prefix_chat_run: "prefix (messages s) (messages (chat_run es s))"
proof (induction es arbitrary: s)
  case Nil
  show ?case by simp
next
  case (Cons e es)
  have "prefix (messages s) (messages (chat_step e s))"
    by (rule prefix_chat_step)
  also have "prefix (messages (chat_step e s)) (messages (chat_run es (chat_step e s)))"
    by (rule Cons.IH)
  finally show ?case by simp
qed

lemma no_error_handleSend: "no_error_bubble s \<Longrightarrow> no_error_bubble (handleSend i now s)"
  by (simp add: no_error_bubble_def handleSend_def Let_def)

lemma no_error_handleSend_settle:
  "no_error_bubble s \<Longrightarrow> no_error_bubble (handleSend_settle i now res s)"
proof (cases "outstanding s")
  case Nil
  assume "no_error_bubble s"
  with Nil show ?thesis by (simp add: handleSend_settle_def)
next
  case (Cons pm rest)
  assume "no_error_bubble s"
  with Cons handleSend_settle_messages [of s "fst pm" "snd pm" rest i now res]
  show ?thesis by (simp add: no_error_bubble_def)
qed

lemma no_error_handleInputChange:
  "no_error_bubble s \<Longrightarrow> no_error_bubble (handleInputChange v s)"
  by (simp add: no_error_bubble_def handleInputChange_def)

lemma no_error_step: "no_error_bubble s \<Longrightarrow> no_error_bubble (chat_step e s)"
  by (cases e) (simp_all add: no_error_handleSend no_error_handleSend_settle
      no_error_handleInputChange)

lemma no_error_run: "no_error_bubble s \<Longrightarrow> no_error_bubble (chat_run es s)"
  by (induction es arbitrary: s) (simp_all add: no_error_step)

lemma sent_handleSend:
  "sent (handleSend i now s) = sent s \<or>
   sent (handleSend i now s) = sent s @ [sendMessage_fetch (trim (input s))]"
  by (simp add: handleSend_def Let_def)

lemma sent_handleSend_settle: "sent (handleSend_settle i now res s) = sent s"
  by (simp add: handleSend_settle_def handleSend_resume_def Let_def
      split: list.splits sum.splits prod.splits)

lemma mode_field_rag:
  "get_prop (body (sendMessage_fetch q)) (utf16 ''mode'') = Inr (Some (JStr (utf16 ''rag'')))"
  by (simp add: sendMessage_fetch_def utf16_def)

lemma rag_since_step: "rag_since old s \<Longrightarrow> rag_since old (chat_step e s)"
proof (cases e)
  case (Send i now)
  assume "rag_since old s"
  with Send sent_handleSend [of i now s] show ?thesis
    by (auto simp: rag_since_def mode_field_rag)
qed (simp_all add: rag_since_def sent_handleSend_settle handleInputChange_def)

lemma rag_since_run: "rag_since old s \<Longrightarrow> rag_since old (chat_run es s)"
  by (induction es arbitrary: s) (simp_all add: rag_since_step)

lemma mode_step: "mode (chat_step e s) = mode s"
  by (cases e) (simp_all add: handleSend_def handleSend_settle_def handleSend_resume_def
      handleInputChange_def Let_def split: list.splits sum.splits prod.splits)

lemma mode_run: "mode (chat_run es s) = mode s"
  by (induction es arbitrary: s) (simp_all add: mode_step)

lemma handleSend_noop_iff: "handleSend i now s = s \<longleftrightarrow> loading s \<or> trim (input s) = []"
proof
  assume eq: "handleSend i now s = s"
  show "loading s \<or> trim (input s) = []"
  proof (rule ccontr)
    assume "\<not> (loading s \<or> trim (input s) = [])"
    then have "length (messages (handleSend i now s)) = Suc (length (messages s))"
      by (simp add: handleSend_proceeds)
    with eq show False by simp
  qed
next
  assume "loading s \<or> trim (input s) = []"
  then show "handleSend i now s = s"
    by (auto simp: handleSend_def)
qed

text \<open>
  An answer that is no string is stored as it is, and is not what the bubble shows: a
  boolean shows nothing, and an object makes the rendering throw.
\<close>

lemma non_string_answers:
  assumes "outstanding s = (p, m) # rest" and "ok st"
  shows "MessageBubble (last (messages (handleSend_settle i now
      (Response st (Inr (JObj [(utf16 ''answer'', JBool b)]))) s))) = Shown Empty"
    and "MessageBubble (last (messages (handleSend_settle i now
      (Response st (Inr (JObj [(utf16 ''answer'', JObj kvs)]))) s))) = Render_throws"
  using assms
  by (simp_all add: handleSend_settle_messages MessageBubble_def sendMessage_answer answer_of_def
      first_non_null_def present_fields_def answer_fields_def List.map_filter_simps)

text \<open>The definitions to unfold when a concrete session is evaluated.\<close>

lemmas chat_eval =
  handleSend_def handleSend_settle_def handleSend_resume_def
  handleInputChange_def textarea_disabled_def send_disabled_def ChatBot_def Let_def
  sendMessage_def sendMessage_try_def sendMessage_fetch_def
  trim_def is_white_space_def utf16_def ok_def

subsection \<open>The answer shown for a response\<close>

text \<open>
  Claim C2, as amended. For every chat request, the answer (the content of the message
  appended when the request settles) is the first field among \<open>answer\<close>, \<open>response\<close>,
  \<open>message\<close> of the JSON response body that is present with a value other than \<open>null\<close>;
  if there is none, or the status is not 2xx, or a network error occurs, it is the
  fallback string "Something went wrong. Please try again.". Whenever the answer is a
  string, the rendered bubble content equals it: so the fallback string is rendered in
  each of the failure cases, and for a 2xx response with body \<open>{"answer": "X"}\<close> the
  rendered bubble content equals \<open>"X"\<close>.
\<close>

theorem chat_answer:
  "sendMessage q res = Inr (answer_of first_non_null res) \<and>
   (\<forall>p m rest. outstanding s = (p, m) # rest \<longrightarrow>
      content (last (messages (handleSend_settle i now res s)))
        = answer_of first_non_null res \<and>
      (\<forall>x. answer_of first_non_null res = JStr x \<longrightarrow>
         MessageBubble (last (messages (handleSend_settle i now res s))) = Shown (Text x))) \<and>
   (\<forall>p m rest st j. outstanding s = (p, m) # rest \<and> \<not> ok st \<longrightarrow>
      MessageBubble (last (messages (handleSend_settle i now (Response st j) s)))
        = Shown (Text fallback)) \<and>
   (\<forall>p m rest e. outstanding s = (p, m) # rest \<longrightarrow>
      MessageBubble (last (messages (handleSend_settle i now (NetworkFailure e) s)))
        = Shown (Text fallback)) \<and>
   (\<forall>p m rest st X. outstanding s = (p, m) # rest \<and> ok st \<longrightarrow>
      MessageBubble (last (messages (handleSend_settle i now
        (Response st (Inr (JObj [(utf16 ''answer'', JStr X)]))) s))) = Shown (Text X))"
proof -
  have shown: "content (last (messages (handleSend_settle i now r s)))
        = answer_of first_non_null r \<and>
      MessageBubble (last (messages (handleSend_settle i now r s)))
        = render_child (answer_of first_non_null r)"
    if "outstanding s = (p, m) # rest" for p m rest r
    using that by (simp add: handleSend_settle_messages MessageBubble_def sendMessage_answer)
  have failed: "answer_of first_non_null (Response st j) = JStr fallback"
    if "\<not> ok st" for st j
    using that by (simp add: answer_of_def split: sum.splits jsvalue.splits)
  have lost: "answer_of first_non_null (NetworkFailure e) = JStr fallback" for e
    by (simp add: answer_of_def)
  have plain: "answer_of first_non_null (Response st (Inr (JObj [(utf16 ''answer'', JStr X)])))
      = JStr X" if "ok st" for st X
    using that
    by (simp add: answer_of_def first_non_null_def present_fields_def answer_fields_def
        List.map_filter_simps)
  show ?thesis
  proof (intro conjI allI impI)
    show "sendMessage q res = Inr (answer_of first_non_null res)"
      by (rule sendMessage_answer)
  next
    fix p m rest
    assume "outstanding s = (p, m) # rest"
    then show "content (last (messages (handleSend_settle i now res s)))
        = answer_of first_non_null res"
      by (simp add: shown)
  next
    fix p m rest x
    assume "outstanding s = (p, m) # rest" and "answer_of first_non_null res = JStr x"
    then show "MessageBubble (last (messages (handleSend_settle i now res s))) = Shown (Text x)"
      by (simp add: shown)
  next
    fix p m rest st j
    assume "outstanding s = (p, m) # rest \<and> \<not> ok st"
    then show "MessageBubble (last (messages (handleSend_settle i now (Response st j) s)))
        = Shown (Text fallback)"
      by (simp add: shown failed)
  next
    fix p m rest e
    assume "outstanding s = (p, m) # rest"
    then show "MessageBubble (last (messages (handleSend_settle i now (NetworkFailure e) s)))
        = Shown (Text fallback)"
      by (simp add: shown lost)
  next
    fix p m rest st X
    assume "outstanding s = (p, m) # rest \<and> ok st"
    then show "MessageBubble (last (messages (handleSend_settle i now
        (Response st (Inr (JObj [(utf16 ''answer'', JStr X)]))) s))) = Shown (Text X)"
      by (simp add: shown plain)
  qed
qed

theorem chat_answer_witness:
  "MessageBubble (last (messages (handleSend_settle [2] 2
      (Response 200 (Inr (JObj [(utf16 ''answer'', JStr (utf16 ''X''))])))
      (handleSend [1] 1 (handleInputChange (utf16 ''hi'') (ChatBot (utf16 ''a.pdf'') [0] 0))))))
     = Shown (Text (utf16 ''X'')) \<and>
   MessageBubble (last (messages (handleSend_settle [2] 2
      (Response 500 (Inr (JObj [(utf16 ''answer'', JStr (utf16 ''X''))])))
      (handleSend [1] 1 (handleInputChange (utf16 ''hi'') (ChatBot (utf16 ''a.pdf'') [0] 0))))))
     = Shown (Text fallback) \<and>
   sendMessage (utf16 ''hi'') (Response 500 (Inr (JObj [(utf16 ''answer'', JStr (utf16 ''X''))])))
     = Inr (JStr fallback)"
proof -
  define s where
    "s = handleSend [1] 1 (handleInputChange (utf16 ''hi'') (ChatBot (utf16 ''a.pdf'') [0] 0))"
  let ?res = "Response 500 (Inr (JObj [(utf16 ''answer'', JStr (utf16 ''X''))]))"
  have o: "outstanding s = (utf16 ''hi'', File_only) # []"
    by (simp add: s_def handleSend_def Let_def handleInputChange_def ChatBot_def trim_def
        utf16_def is_white_space_def)
  have k: "ok 200" "\<not> ok 500"
    by (simp_all add: ok_def)
  have b: "answer_of first_non_null ?res = JStr fallback"
    by (simp add: answer_of_def ok_def)
  have "MessageBubble (last (messages (handleSend_settle [2] 2
      (Response 200 (Inr (JObj [(utf16 ''answer'', JStr (utf16 ''X''))]))) s)))
     = Shown (Text (utf16 ''X'')) \<and>
   MessageBubble (last (messages (handleSend_settle [2] 2 ?res s))) = Shown (Text fallback) \<and>
   sendMessage (utf16 ''hi'') ?res = Inr (JStr fallback)"
    using chat_answer [of "utf16 ''hi''" ?res s "[2]" 2] o k b by metis
  then show ?thesis
    unfolding s_def .
qed

text \<open>
  The claim as stated fails where a field is present with the value \<open>null\<close>: for the body
  \<open>{"answer": null, "response": "Y"}\<close> the first present field is \<open>answer\<close>, and the
  answer displayed is \<open>"Y"\<close>.
\<close>

theorem chat_answer_counterexample:
  "sendMessage (utf16 ''q'')
     (Response 200 (Inr (JObj [(utf16 ''answer'', JNull), (utf16 ''response'', JStr (utf16 ''Y''))])))
     = Inr (JStr (utf16 ''Y'')) \<and>
   answer_of first_present
     (Response 200 (Inr (JObj [(utf16 ''answer'', JNull), (utf16 ''response'', JStr (utf16 ''Y''))])))
     = JNull"
  by (simp add: sendMessage_def sendMessage_try_def answer_of_def first_present_def
      present_fields_def answer_fields_def List.map_filter_simps ok_def utf16_def)

subsection \<open>One send, two messages\<close>

text \<open>
  Claim C3. In every state of a chat session in which the typed input has a non-empty
  trimmed content, a send appends exactly one user message at once (its content is the
  trimmed input), nothing more is appended whatever the user does before the response
  arrives, and when the request settles exactly one further message is appended, with
  role assistant or error.
\<close>

theorem send_appends_two:
  assumes "s = chat_run es (ChatBot f i0 t0)"
    and "trim (input s) \<noteq> []"
    and "\<forall>e\<in>set mid. \<not> is_settle e"
  shows "\<exists>u a.
      messages (chat_run mid (handleSend i now s)) = messages s @ [u] \<and>
      role u = User \<and> content u = JStr (trim (input s)) \<and>
      messages (handleSend_settle i' now' res (chat_run mid (handleSend i now s)))
        = messages s @ [u, a] \<and>
      (role a = Assistant \<or> role a = Error)"
proof -
  have inv: "chat_inv s"
    using assms(1) by (simp add: chat_inv_run chat_inv_ChatBot)
  from assms(2) have "input s \<noteq> []"
    by auto
  with inv have idle: "\<not> loading s" "outstanding s = []"
    by (auto simp: chat_inv_def)
  let ?u = "\<lparr>id_msg = i, role = User, content = JStr (trim (input s)),
              mode_msg = None, timestamp = now\<rparr>"
  let ?s1 = "handleSend i now s"
  have s1: "messages ?s1 = messages s @ [?u]" "loading ?s1"
    "outstanding ?s1 = [(trim (input s), mode s)]"
    using idle assms(2) by (simp_all add: handleSend_proceeds)
  have mid: "chat_run mid ?s1 = ?s1"
    using s1(2) assms(3) by (rule chat_run_loading)
  let ?a = "\<lparr>id_msg = i', role = Assistant,
       content = (case sendMessage (trim (input s)) res of
                    Inr v \<Rightarrow> v | Inl e \<Rightarrow> JStr (error_message e)),
       mode_msg = Some (mode s), timestamp = now'\<rparr>"
  have "messages (handleSend_settle i' now' res ?s1) = messages ?s1 @ [?a]"
    using s1(3) by (rule handleSend_settle_messages)
  then have "messages (handleSend_settle i' now' res (chat_run mid ?s1)) = messages s @ [?u, ?a]"
    by (simp add: mid s1(1))
  moreover have "messages (chat_run mid ?s1) = messages s @ [?u]"
    by (simp add: mid s1(1))
  ultimately show ?thesis
    by (intro exI [of _ ?u] exI [of _ ?a]) simp
qed

theorem send_appends_two_witness:
  "\<exists>u a.
      messages (chat_run [Send [7] 7, Input_change (utf16 ''x'')]
        (handleSend [1] 1
          (chat_run [Input_change (utf16 '' hi '')] (ChatBot (utf16 ''a.pdf'') [0] 0))))
        = messages (chat_run [Input_change (utf16 '' hi '')] (ChatBot (utf16 ''a.pdf'') [0] 0))
            @ [u] \<and>
      role u = User \<and> content u = JStr (utf16 ''hi'') \<and>
      messages (handleSend_settle [2] 2 (NetworkFailure [])
        (chat_run [Send [7] 7, Input_change (utf16 ''x'')]
          (handleSend [1] 1
            (chat_run [Input_change (utf16 '' hi '')] (ChatBot (utf16 ''a.pdf'') [0] 0)))))
        = messages (chat_run [Input_change (utf16 '' hi '')] (ChatBot (utf16 ''a.pdf'') [0] 0))
            @ [u, a] \<and>
      (role a = Assistant \<or> role a = Error)"
proof -
  let ?s = "chat_run [Input_change (utf16 '' hi '')] (ChatBot (utf16 ''a.pdf'') [0] 0)"
  have t: "trim (input ?s) = utf16 ''hi''"
    by (simp add: ChatBot_def textarea_disabled_def handleInputChange_def trim_def utf16_def
        is_white_space_def)
  have h2: "trim (input ?s) \<noteq> []"
    unfolding t by (simp add: utf16_def)
  have h3: "\<forall>e\<in>set [Send [7] 7, Input_change (utf16 ''x'')]. \<not> is_settle e"
    by simp
  show ?thesis
    using send_appends_two [OF refl h2 h3, of "[1]" 1 "[2]" 2 "NetworkFailure []"]
    unfolding t .
qed

subsection \<open>The mode of a request\<close>

text \<open>
  Claim C5, as amended. For every chat request sent to the backend, the \<open>mode\<close> field
  of the JSON body is the constant \<open>"rag"\<close>, whatever the client-side mode is; the
  client-side mode is never changed by a session and starts as \<open>file_only\<close>.
\<close>

theorem request_mode_rag:
  "(\<forall>r\<in>set (sent (chat_run es s)). r \<in> set (sent s) \<or>
      get_prop (body r) (utf16 ''mode'') = Inr (Some (JStr (utf16 ''rag'')))) \<and>
   mode (chat_run es s) = mode s \<and>
   mode (ChatBot f i0 t0) = File_only \<and> sent (ChatBot f i0 t0) = []"
proof -
  have "rag_since (sent s) s"
    by (simp add: rag_since_def)
  then have "rag_since (sent s) (chat_run es s)"
    by (rule rag_since_run)
  then show ?thesis
    by (simp add: rag_since_def mode_run ChatBot_def)
qed

theorem request_mode_rag_witness:
  "sent (chat_run [Input_change (utf16 ''hi''), Send [1] 1] (ChatBot (utf16 ''a.pdf'') [0] 0))
     = [sendMessage_fetch (utf16 ''hi'')] \<and>
   get_prop (body (sendMessage_fetch (utf16 ''hi''))) (utf16 ''mode'')
     = Inr (Some (JStr (utf16 ''rag''))) \<and>
   mode (chat_run [Input_change (utf16 ''hi''), Send [1] 1] (ChatBot (utf16 ''a.pdf'') [0] 0))
     = File_only"
  using request_mode_rag [of "[Input_change (utf16 ''hi''), Send [1] 1]"
      "ChatBot (utf16 ''a.pdf'') [0] 0" "utf16 ''a.pdf''" "[0]" 0]
  by (simp add: chat_eval)

text \<open>
  The claim as stated fails in the very first send of a session: the client is in mode
  \<open>file_only\<close> and the request carries \<open>"rag"\<close>.
\<close>

theorem request_mode_counterexample:
  "mode (chat_run [Input_change (utf16 ''hi'')] (ChatBot (utf16 ''a.pdf'') [0] 0)) = File_only \<and>
   sent (chat_run [Input_change (utf16 ''hi''), Send [1] 1] (ChatBot (utf16 ''a.pdf'') [0] 0))
     = [sendMessage_fetch (utf16 ''hi'')] \<and>
   get_prop (body (sendMessage_fetch (utf16 ''hi''))) (utf16 ''mode'')
     \<noteq> Inr (Some (JStr (mode_string File_only)))"
  by (simp add: chat_eval)


subsection \<open>When sending is disabled\<close>

text \<open>
  Claim C6. In every state of a chat session, the send action is a no-op exactly when
  \<open>loading\<close> is set or the trimmed input is empty, the send button is disabled exactly
  then, and \<open>loading\<close> is set exactly when a chat request is outstanding. So a send
  proceeds only when \<open>loading\<close> is false and the trimmed input is non-empty.
\<close>

theorem sending_disabled:
  assumes "s = chat_run es (ChatBot f i0 t0)"
  shows "(handleSend i now s = s \<longleftrightarrow> loading s \<or> trim (input s) = []) \<and>
    (send_disabled s \<longleftrightarrow> loading s \<or> trim (input s) = []) \<and>
    (loading s \<longleftrightarrow> outstanding s \<noteq> [])"
proof -
  have "chat_inv s"
    using assms by (simp add: chat_inv_run chat_inv_ChatBot)
  then have "loading s \<longleftrightarrow> outstanding s \<noteq> []"
    by (simp add: chat_inv_def)
  then show ?thesis
    by (auto simp: handleSend_noop_iff send_disabled_def)
qed

theorem sending_disabled_witness:
  "handleSend [3] 3 (chat_run [Input_change (utf16 ''hi''), Send [1] 1] (ChatBot (utf16 ''a.pdf'') [0] 0))
     = chat_run [Input_change (utf16 ''hi''), Send [1] 1] (ChatBot (utf16 ''a.pdf'') [0] 0) \<and>
   send_disabled (chat_run [Input_change (utf16 ''hi''), Send [1] 1] (ChatBot (utf16 ''a.pdf'') [0] 0)) \<and>
   loading (chat_run [Input_change (utf16 ''hi''), Send [1] 1] (ChatBot (utf16 ''a.pdf'') [0] 0)) \<and>
   send_disabled (chat_run [Input_change [0x20, 0x0A]] (ChatBot (utf16 ''a.pdf'') [0] 0)) \<and>
   \<not> send_disabled (chat_run [Input_change (utf16 ''hi'')] (ChatBot (utf16 ''a.pdf'') [0] 0))"
proof -
  let ?s = "chat_run [Input_change (utf16 ''hi''), Send [1] 1] (ChatBot (utf16 ''a.pdf'') [0] 0)"
  have l: "loading ?s"
    by (simp add: chat_eval)
  have "send_disabled (chat_run [Input_change [0x20, 0x0A]] (ChatBot (utf16 ''a.pdf'') [0] 0))"
    "\<not> send_disabled (chat_run [Input_change (utf16 ''hi'')] (ChatBot (utf16 ''a.pdf'') [0] 0))"
    by (simp_all add: chat_eval)
  with l sending_disabled [OF refl, of "[3]" 3 "[Input_change (utf16 ''hi''), Send [1] 1]" "utf16 ''a.pdf''" "[0]" 0]
  show ?thesis by simp
qed

subsection \<open>The transcript is append-only\<close>

text \<open>
  Claim C7. Every event of a chat session (typing, sending, a response or a failure
  arriving), and so every sequence of events, leaves the message list it found as a
  prefix of the new one: messages are only added at the end, none is removed or changed.
\<close>

theorem messages_append_only:
  "prefix (messages s) (messages (chat_step e s)) \<and>
   prefix (messages s) (messages (chat_run es s)) \<and>
   take (length (messages s)) (messages (chat_run es s)) = messages s"
proof -
  have "prefix (messages s) (messages (chat_run es s))"
    by (rule prefix_chat_run)
  moreover from this have "take (length (messages s)) (messages (chat_run es s)) = messages s"
    by (auto simp: prefix_def)
  ultimately show ?thesis
    by (simp add: prefix_chat_step)
qed

theorem messages_append_only_witness:
  "take 1 (messages (chat_run
      [Input_change (utf16 ''hi''), Send [1] 1, Settle [2] 2 (NetworkFailure [])]
      (ChatBot (utf16 ''a.pdf'') [0] 0))) = messages (ChatBot (utf16 ''a.pdf'') [0] 0) \<and>
   length (messages (chat_run
      [Input_change (utf16 ''hi''), Send [1] 1, Settle [2] 2 (NetworkFailure [])]
      (ChatBot (utf16 ''a.pdf'') [0] 0))) = 3"
proof -
  have "length (messages (ChatBot (utf16 ''a.pdf'') [0] 0)) = 1"
    by (simp add: ChatBot_def)
  moreover have "length (messages (chat_run
      [Input_change (utf16 ''hi''), Send [1] 1, Settle [2] 2 (NetworkFailure [])]
      (ChatBot (utf16 ''a.pdf'') [0] 0))) = 3"
    by (simp add: chat_eval)
  ultimately show ?thesis
    using messages_append_only [of "ChatBot (utf16 ''a.pdf'') [0] 0" "Send [] 0"
      "[Input_change (utf16 ''hi''), Send [1] 1, Settle [2] 2 (NetworkFailure [])]"]
    by simp
qed


subsection \<open>No error bubble\<close>

text \<open>
  Claim C10. \<open>sendMessage\<close> never throws: for every response and every network outcome
  its promise resolves. So the settled send appends one message with role assistant,
  and no message of a chat session ever has the role error.
\<close>

theorem sendMessage_never_throws:
  "(\<exists>v. sendMessage q res = Inr v) \<and>
   (\<forall>p m rest. outstanding s = (p, m) # rest \<longrightarrow>
      (\<exists>a. messages (handleSend_settle i now res s) = messages s @ [a] \<and> role a = Assistant)) \<and>
   (\<forall>msg\<in>set (messages (chat_run es (ChatBot f i0 t0))). role msg \<noteq> Error)"
proof (intro conjI allI impI)
  show "\<exists>v. sendMessage q res = Inr v"
    by (rule sendMessage_Inr)
next
  fix p m rest
  assume "outstanding s = (p, m) # rest"
  then show "\<exists>a. messages (handleSend_settle i now res s) = messages s @ [a] \<and> role a = Assistant"
    by (simp add: handleSend_settle_messages)
next
  have "no_error_bubble (ChatBot f i0 t0)"
    by (simp add: no_error_bubble_def ChatBot_def)
  then have "no_error_bubble (chat_run es (ChatBot f i0 t0))"
    by (rule no_error_run)
  then show "\<forall>msg\<in>set (messages (chat_run es (ChatBot f i0 t0))). role msg \<noteq> Error"
    by (simp add: no_error_bubble_def)
qed

theorem sendMessage_never_throws_witness:
  "sendMessage (utf16 ''hi'') (NetworkFailure (utf16 ''Failed to fetch'')) = Inr (JStr fallback) \<and>
   sendMessage (utf16 ''hi'') (Response 200 (Inr JNull)) = Inr (JStr fallback) \<and>
   map role (messages (chat_run
      [Input_change (utf16 ''hi''), Send [1] 1, Settle [2] 2 (Response 500 (Inl (JsError [])))]
      (ChatBot (utf16 ''a.pdf'') [0] 0))) = [Assistant, User, Assistant]"
  using sendMessage_never_throws [of "utf16 ''hi''" "NetworkFailure (utf16 ''Failed to fetch'')"
      "ChatBot (utf16 ''a.pdf'') [0] 0" "[2]" 2
      "[Input_change (utf16 ''hi''), Send [1] 1, Settle [2] 2 (Response 500 (Inl (JsError [])))]"
      "utf16 ''a.pdf''" "[0]" 0]
  by (simp add: chat_eval)

section \<open>Properties of the upload component\<close>

subsection \<open>Auxiliary facts\<close>

lemma upload_inv_FileUpload: "upload_inv FileUpload"
  by (simp add: upload_inv_def FileUpload_def)

lemma upload_inv_handleUpload:
  "upload_inv s \<Longrightarrow> \<not> uploaded s \<Longrightarrow> \<not> upload_disabled s \<Longrightarrow> upload_inv (handleUpload s)"
  by (auto simp: upload_inv_def handleUpload_def upload_disabled_def Let_def)

lemma handleUpload_resume_eq:
  "handleUpload_resume f k res s = setTimeout f 600 ((clearInterval k s)\<lparr>progress := 100\<rparr>)"
  by (cases res)
    (simp_all add: handleUpload_resume_def handleUpload_try_def handleUpload_catch_def
      clearInterval_def setTimeout_def Let_def)

lemma handleUpload_settle_Cons:
  "fetches s = (f, k) # rest \<Longrightarrow>
   handleUpload_settle res s =
     s\<lparr>fetches := rest, intervals := removeAll k (intervals s), progress := 100,
       timeouts := timeouts s @ [(600, f)]\<rparr>"
  by (simp add: handleUpload_settle_def handleUpload_resume_eq clearInterval_def setTimeout_def)

lemma upload_inv_handleUpload_settle: "upload_inv s \<Longrightarrow> upload_inv (handleUpload_settle res s)"
proof (cases "fetches s")
  case Nil
  assume "upload_inv s"
  with Nil show ?thesis by (simp add: handleUpload_settle_def)
next
  case (Cons fk rest)
  assume "upload_inv s"
  with Cons handleUpload_settle_Cons [of s "fst fk" "snd fk" rest res] show ?thesis
    by (auto simp: upload_inv_def)
qed

lemma upload_inv_timeout_fire: "upload_inv s \<Longrightarrow> upload_inv (timeout_fire s)"
  by (auto simp: upload_inv_def timeout_fire_def timeout_callback_def split: list.splits)

lemma upload_inv_interval_tick: "upload_inv s \<Longrightarrow> upload_inv (interval_tick k r s)"
  by (auto simp: upload_inv_def interval_tick_def clearInterval_def)

lemma upload_inv_handleReset: "upload_inv s \<Longrightarrow> upload_inv (handleReset s)"
  by (auto simp: upload_inv_def handleReset_def)

lemma upload_inv_card:
  "upload_inv s \<Longrightarrow> \<not> uploaded s \<Longrightarrow>
   upload_inv (handleFileChange files s) \<and> upload_inv (handleDrop files s) \<and>
   upload_inv (handleDragOver s) \<and> upload_inv (handleDragLeave s)"
  by (auto simp: upload_inv_def handleFileChange_def handleDrop_def handleDragOver_def
      handleDragLeave_def Let_def split: option.splits)

lemma upload_inv_step: "upload_inv s \<Longrightarrow> upload_inv (upload_step e s)"
  by (cases e)
    (simp_all add: upload_inv_handleUpload upload_inv_handleUpload_settle upload_inv_timeout_fire
      upload_inv_interval_tick upload_inv_handleReset upload_inv_card)

lemma upload_inv_run: "upload_inv s \<Longrightarrow> upload_inv (upload_run es s)"
  by (induction es arbitrary: s) (simp_all add: upload_inv_step)

lemma progress_inv_step: "progress_inv s \<Longrightarrow> progress_inv (upload_step e s)"
proof (cases e)
  case (Tick k r)
  assume "progress_inv s"
  with Tick show ?thesis
    by (auto simp: progress_inv_def interval_tick_def clearInterval_def)
next
  case (Fetch_settle res)
  assume "progress_inv s"
  with Fetch_settle show ?thesis
    by (cases "fetches s")
      (auto simp: progress_inv_def handleUpload_settle_def handleUpload_resume_eq
        clearInterval_def setTimeout_def)
qed (auto simp: progress_inv_def handleFileChange_def handleDrop_def handleDragOver_def
      handleDragLeave_def handleUpload_def handleReset_def timeout_fire_def timeout_callback_def
      Let_def split: option.splits list.splits)

lemma progress_inv_run: "progress_inv s \<Longrightarrow> progress_inv (upload_run es s)"
  by (induction es arbitrary: s) (simp_all add: progress_inv_step)

lemma progress_bounds:
  "0 \<le> progress (upload_run es FileUpload) \<and> progress (upload_run es FileUpload) < 105"
proof -
  have "progress_inv FileUpload"
    by (simp add: progress_inv_def FileUpload_def)
  then have "progress_inv (upload_run es FileUpload)"
    by (rule progress_inv_run)
  then show ?thesis
    by (simp add: progress_inv_def)
qed


lemma in_flight_step: "in_flight fs ts s \<Longrightarrow> ambient e \<Longrightarrow> in_flight fs ts (upload_step e s)"
  by (cases e)
    (auto simp: in_flight_def handleFileChange_def handleDrop_def handleDragOver_def
      handleDragLeave_def upload_disabled_def reset_shown_def interval_tick_def clearInterval_def
      Let_def split: option.splits)

lemma in_flight_run:
  "in_flight fs ts s \<Longrightarrow> \<forall>e\<in>set es. ambient e \<Longrightarrow> in_flight fs ts (upload_run es s)"
  by (induction es arbitrary: s) (simp_all add: in_flight_step)

lemma idle_session:
  assumes "s = upload_run es FileUpload" and "\<not> uploading s"
  shows "fetches s = []" and "timeouts s = []" and "intervals s = []"
proof -
  have "upload_inv s"
    using assms(1) by (simp add: upload_inv_run upload_inv_FileUpload)
  with assms(2) show "fetches s = []" and "timeouts s = []" and "intervals s = []"
    by (auto simp: upload_inv_def)
qed

lemma click_upload_in_flight:
  assumes "s = upload_run es FileUpload" and "file s = Some f"
    and "\<not> uploading s" and "\<not> uploaded s"
  shows "in_flight [(f, next_timer s)] [] (upload_step Click_upload s)"
  using assms idle_session [OF assms(1) assms(3)]
  by (simp add: in_flight_def upload_disabled_def handleUpload_def Let_def)

text \<open>The definitions to unfold when a concrete session is evaluated.\<close>

lemmas upload_eval =
  FileUpload_def handleFileChange_def handleDrop_def handleDragOver_def handleDragLeave_def
  handleUpload_def handleUpload_settle_def handleUpload_resume_def handleUpload_try_def
  handleUpload_catch_def clearInterval_def setTimeout_def interval_tick_def timeout_fire_def
  timeout_callback_def handleReset_def render_def upload_disabled_def reset_shown_def
  Let_def ok_def

subsection \<open>A failed upload counts as a success\<close>

text \<open>
  Claim C1. For every upload attempt on a selected file (the upload button is pressed in
  a state of a session where a file is selected and no upload is running), whatever the
  fetch gives, a non-2xx response and a network failure included, the handler ends in
  the same state as on a 2xx response: one timeout of 600 ms is scheduled, and when it
  fires the file's name is recorded, \<open>uploaded\<close> is set and \<open>uploading\<close> is cleared.
\<close>

theorem upload_failure_is_success:
  assumes "s = upload_run es FileUpload" and "file s = Some f"
    and "\<not> uploading s" and "\<not> uploaded s" and "ok st"
  shows "handleUpload_settle res (upload_step Click_upload s)
      = handleUpload_settle (Response st b) (upload_step Click_upload s) \<and>
    timeouts (handleUpload_settle res (upload_step Click_upload s)) = [(600, f)] \<and>
    uploading (handleUpload_settle res (upload_step Click_upload s)) \<and>
    \<not> uploaded (handleUpload_settle res (upload_step Click_upload s)) \<and>
    uploadedFileName (timeout_fire (handleUpload_settle res (upload_step Click_upload s)))
      = name f \<and>
    uploaded (timeout_fire (handleUpload_settle res (upload_step Click_upload s))) \<and>
    \<not> uploading (timeout_fire (handleUpload_settle res (upload_step Click_upload s)))"
proof -
  define s1 where "s1 = upload_step Click_upload s"
  have "in_flight [(f, next_timer s)] [] s1"
    unfolding s1_def using assms(1-4) by (rule click_upload_in_flight)
  then have s1: "fetches s1 = [(f, next_timer s)]" "timeouts s1 = []" "uploading s1"
    "\<not> uploaded s1"
    by (simp_all add: in_flight_def)
  have settle: "handleUpload_settle r s1 =
      s1\<lparr>fetches := [], intervals := removeAll (next_timer s) (intervals s1), progress := 100,
         timeouts := [(600, f)]\<rparr>" for r
    using handleUpload_settle_Cons [OF s1(1), of r] by (simp add: s1(2))
  have "handleUpload_settle res s1 = handleUpload_settle (Response st b) s1 \<and>
    timeouts (handleUpload_settle res s1) = [(600, f)] \<and>
    uploading (handleUpload_settle res s1) \<and>
    \<not> uploaded (handleUpload_settle res s1) \<and>
    uploadedFileName (timeout_fire (handleUpload_settle res s1)) = name f \<and>
    uploaded (timeout_fire (handleUpload_settle res s1)) \<and>
    \<not> uploading (timeout_fire (handleUpload_settle res s1))"
    by (simp add: settle s1 timeout_fire_def timeout_callback_def)
  then show ?thesis
    unfolding s1_def .
qed

theorem upload_failure_is_success_witness:
  "handleUpload_settle (Response 500 (Inl (JsError [])))
     (upload_run [File_change (Some \<lparr>name = utf16 ''a.pdf'', size_file = 10\<rparr>), Click_upload]
        FileUpload)
   = handleUpload_settle (Response 200 (Inr JNull))
     (upload_run [File_change (Some \<lparr>name = utf16 ''a.pdf'', size_file = 10\<rparr>), Click_upload]
        FileUpload) \<and>
   timeouts (handleUpload_settle (Response 500 (Inl (JsError [])))
     (upload_run [File_change (Some \<lparr>name = utf16 ''a.pdf'', size_file = 10\<rparr>), Click_upload]
        FileUpload)) = [(600, \<lparr>name = utf16 ''a.pdf'', size_file = 10\<rparr>)] \<and>
   uploadedFileName (timeout_fire (handleUpload_settle (Response 500 (Inl (JsError [])))
     (upload_run [File_change (Some \<lparr>name = utf16 ''a.pdf'', size_file = 10\<rparr>), Click_upload]
        FileUpload))) = utf16 ''a.pdf'' \<and>
   uploaded (timeout_fire (handleUpload_settle (Response 500 (Inl (JsError [])))
     (upload_run [File_change (Some \<lparr>name = utf16 ''a.pdf'', size_file = 10\<rparr>), Click_upload]
        FileUpload))) \<and>
   \<not> uploading (timeout_fire (handleUpload_settle (Response 500 (Inl (JsError [])))
     (upload_run [File_change (Some \<lparr>name = utf16 ''a.pdf'', size_file = 10\<rparr>), Click_upload]
        FileUpload)))"
proof -
  let ?f = "\<lparr>name = utf16 ''a.pdf'', size_file = 10\<rparr>"
  let ?s = "upload_run [File_change (Some ?f)] FileUpload"
  have h: "file ?s = Some ?f" "\<not> uploading ?s" "\<not> uploaded ?s" "ok 200"
    by (simp_all add: upload_eval)
  show ?thesis
    using upload_failure_is_success [OF refl h, of "Response 500 (Inl (JsError []))" "Inr JNull"]
    unfolding upload_run.simps File.select_convs by blast
qed

subsection \<open>The chat screen shows the uploaded file\<close>

text \<open>
  Claim C8. For every accepted file (the one selected when the upload button is pressed),
  once the upload flow completes (the response arrives, or the fetch fails, and the
  timeout fires), whatever the user does and the interval does meanwhile, the chat
  screen is rendered and the \<open>fileName\<close> it is given is that file's name.
\<close>

theorem chat_shows_uploaded_file:
  assumes "s = upload_run es FileUpload" and "file s = Some f"
    and "\<not> uploading s" and "\<not> uploaded s"
    and "\<forall>e\<in>set mid1. ambient e" and "\<forall>e\<in>set mid2. ambient e"
  shows "render (upload_step Timeout_fire (upload_run mid2
      (upload_step (Fetch_settle res) (upload_run mid1 (upload_step Click_upload s)))))
    = Chat_screen (name f)"
proof -
  define s1 where "s1 = upload_run mid1 (upload_step Click_upload s)"
  define s2 where "s2 = upload_step (Fetch_settle res) s1"
  define s3 where "s3 = upload_run mid2 s2"
  have "in_flight [(f, next_timer s)] [] (upload_step Click_upload s)"
    using assms(1-4) by (rule click_upload_in_flight)
  then have "in_flight [(f, next_timer s)] [] s1"
    unfolding s1_def using assms(5) by (rule in_flight_run)
  then have s1: "fetches s1 = [(f, next_timer s)]" "timeouts s1 = []" "uploading s1"
    "\<not> uploaded s1"
    by (simp_all add: in_flight_def)
  have "in_flight [] [(600, f)] s2"
    by (simp add: s2_def in_flight_def handleUpload_settle_Cons [OF s1(1)] s1)
  then have "in_flight [] [(600, f)] s3"
    unfolding s3_def using assms(6) by (rule in_flight_run)
  then have "timeouts s3 = [(600, f)]"
    by (simp add: in_flight_def)
  then have "render (upload_step Timeout_fire s3) = Chat_screen (name f)"
    by (simp add: timeout_fire_def timeout_callback_def render_def)
  then show ?thesis
    unfolding s3_def s2_def s1_def .
qed

theorem chat_shows_uploaded_file_witness:
  "render (upload_run
     [File_change (Some \<lparr>name = utf16 ''a.pdf'', size_file = 10\<rparr>), Click_upload,
      Tick 0 (1/2), Drop (Some \<lparr>name = utf16 ''b.pdf'', size_file = 3\<rparr>),
      Fetch_settle (Response 500 (Inl (JsError []))), Click_upload, Timeout_fire] FileUpload)
   = Chat_screen (utf16 ''a.pdf'')"
proof -
  let ?f = "\<lparr>name = utf16 ''a.pdf'', size_file = 10\<rparr>"
  let ?g = "\<lparr>name = utf16 ''b.pdf'', size_file = 3\<rparr>"
  let ?s = "upload_run [File_change (Some ?f)] FileUpload"
  have h: "file ?s = Some ?f" "\<not> uploading ?s" "\<not> uploaded ?s"
    by (simp_all add: upload_eval)
  have m1: "\<forall>e\<in>set [Tick 0 (1/2), Drop (Some ?g)]. ambient e"
    and m2: "\<forall>e\<in>set [Click_upload]. ambient e"
    by simp_all
  show ?thesis
    using chat_shows_uploaded_file [OF refl h m1 m2, of "Response 500 (Inl (JsError []))"]
    unfolding upload_run.simps File.select_convs .
qed

subsection \<open>The simulated progress\<close>

text \<open>
  Claim C4 says that the simulated progress stays within 0 to 100 in every state
  reached during an upload. The interval's callback compares the progress with 90 before
  it adds the increment, not after, so an increment can carry it past 100: with the
  random numbers 0.5 (eleven times), 0.25 and 0.9375 the progress is 100.3125 while the
  upload is still running. All the numbers involved are exact in binary floating point.
  What does hold in every state of a session, for the progress as a real number, is
  \<open>progress_bounds\<close>: it is at least 0 and below 105.
\<close>

theorem progress_overshoot:
  "progress (upload_run
     ([File_change (Some \<lparr>name = utf16 ''a.pdf'', size_file = 10\<rparr>), Click_upload] @
      replicate 11 (Tick 0 (1/2)) @ [Tick 0 (1/4), Tick 0 (15/16)]) FileUpload) = 1605 / 16 \<and>
   uploading (upload_run
     ([File_change (Some \<lparr>name = utf16 ''a.pdf'', size_file = 10\<rparr>), Click_upload] @
      replicate 11 (Tick 0 (1/2)) @ [Tick 0 (1/4), Tick 0 (15/16)]) FileUpload) \<and>
   (100::real) < 1605 / 16"
  by (simp add: upload_eval eval_nat_numeral)

subsection \<open>Reset\<close>

text \<open>
  Claim C9. The reset action clears the file, sets \<open>uploaded\<close> to false, the progress to
  0 and the stored file name to the empty string, so that the upload screen is rendered
  again; on the chat screen the reset button does exactly that, and in a session every
  state variable but \<open>dragOver\<close> then has its initial value again.
\<close>

theorem reset_restores:
  "file (handleReset s) = None \<and> \<not> uploaded (handleReset s) \<and> progress (handleReset s) = 0 \<and>
   uploadedFileName (handleReset s) = [] \<and> render (handleReset s) = Upload_screen \<and>
   (uploaded s \<longrightarrow> upload_step Click_reset s = handleReset s) \<and>
   (uploaded (upload_run es FileUpload) \<longrightarrow>
      upload_step Click_reset (upload_run es FileUpload)
        = FileUpload\<lparr>dragOver := dragOver (upload_run es FileUpload),
            next_timer := next_timer (upload_run es FileUpload)\<rparr>)"
proof -
  have "upload_step Click_reset (upload_run es FileUpload)
        = FileUpload\<lparr>dragOver := dragOver (upload_run es FileUpload),
            next_timer := next_timer (upload_run es FileUpload)\<rparr>"
    if up: "uploaded (upload_run es FileUpload)"
  proof -
    let ?s = "upload_run es FileUpload"
    have "upload_inv ?s"
      by (simp add: upload_inv_run upload_inv_FileUpload)
    with up have idle: "\<not> uploading ?s"
      by (auto simp: upload_inv_def)
    note idle_session [OF refl idle]
    with up idle show ?thesis
      by (simp add: reset_shown_def handleReset_def FileUpload_def)
  qed
  then show ?thesis
    by (simp add: handleReset_def render_def reset_shown_def)
qed

theorem reset_restores_witness:
  "upload_step Click_reset (upload_run
     [File_change (Some \<lparr>name = utf16 ''a.pdf'', size_file = 10\<rparr>), Click_upload,
      Tick 0 (1/2), Fetch_settle (NetworkFailure []), Timeout_fire] FileUpload)
   = FileUpload\<lparr>next_timer := 1\<rparr> \<and>
   render (upload_run
     [File_change (Some \<lparr>name = utf16 ''a.pdf'', size_file = 10\<rparr>), Click_upload,
      Tick 0 (1/2), Fetch_settle (NetworkFailure []), Timeout_fire] FileUpload)
   = Chat_screen (utf16 ''a.pdf'')"
proof -
  define S where "S = upload_run
     [File_change (Some \<lparr>name = utf16 ''a.pdf'', size_file = 10\<rparr>), Click_upload,
      Tick 0 (1/2), Fetch_settle (NetworkFailure []), Timeout_fire] FileUpload"
  have S: "uploaded S" "dragOver S = False" "next_timer S = 1"
    "render S = Chat_screen (utf16 ''a.pdf'')"
    by (simp_all add: S_def upload_eval)
  have "upload_step Click_reset S = FileUpload\<lparr>dragOver := dragOver S, next_timer := next_timer S\<rparr>"
    using reset_restores [of S "[File_change (Some \<lparr>name = utf16 ''a.pdf'', size_file = 10\<rparr>),
      Click_upload, Tick 0 (1/2), Fetch_settle (NetworkFailure []), Timeout_fire]"] S(1)
    unfolding S_def [symmetric] by blast
  then have "upload_step Click_reset S = FileUpload\<lparr>next_timer := 1\<rparr> \<and>
      render S = Chat_screen (utf16 ''a.pdf'')"
    by (simp add: S FileUpload_def)
  then show ?thesis
    unfolding S_def .
qed

end
